theory Spec2Isabelle
  imports Main
begin

section \<open>Strings\<close>

text \<open>
  Python strings are modelled as \<^typ>\<open>string\<close>. The selectors, MIME types and link
  patterns of the program are ASCII; \<open>str.lower\<close> is modelled on the ASCII letters and
  leaves every other character as it is.
\<close>

definition lower_char :: "char \<Rightarrow> char" where
  "lower_char c =
     (case map_of (zip ''ABCDEFGHIJKLMNOPQRSTUVWXYZ'' ''abcdefghijklmnopqrstuvwxyz'') c of
        Some d \<Rightarrow> d
      | None \<Rightarrow> c)"

definition lower :: "string \<Rightarrow> string" where
  "lower s = map lower_char s"

text \<open>\<open>s.startswith(p)\<close>.\<close>

definition startswith :: "string \<Rightarrow> string \<Rightarrow> bool" where
  "startswith s p = (take (length p) s = p)"

text \<open>\<open>str(n)\<close> for a Python \<open>int\<close>, as an f-string renders it.\<close>

definition digit_char :: "nat \<Rightarrow> char" where
  "digit_char d = ''0123456789'' ! d"

fun str_nat :: "nat \<Rightarrow> string" where
  "str_nat n = (if n < 10 then [digit_char n] else str_nat (n div 10) @ [digit_char (n mod 10)])"

declare str_nat.simps [simp del]

definition str_int :: "int \<Rightarrow> string" where
  "str_int i = (if i < 0 then CHR ''-'' # str_nat (nat (- i)) else str_nat (nat i))"

section \<open>Messages\<close>

text \<open>
  The fields of a Telethon \<open>Message\<close> that the program reads. A media object is truthy
  exactly when it is present, so \<open>if message.photo\<close> is \<open>photo m \<noteq> None\<close>.
  \<open>file_name_attr\<close> is \<open>message.file.name\<close>. The record keeps apart the fields the
  program reads apart. On a message that Telethon builds they are related:
  \<open>message.video\<close> is the message's document when that document is a video, so a video
  message has \<open>video\<close> and \<open>document\<close> set to the same object, and
  \<open>message.file.name\<close> is the file name of the document's
  \<open>DocumentAttributeFilename\<close>.
\<close>

datatype attribute = DocumentAttributeFilename string | OtherAttribute

record photo_obj =
  photo_id :: int

record document_obj =
  doc_id :: int
  doc_size :: "int option"
  mime_type :: "string option"
  attributes :: "attribute list"

datatype entity_kind = MessageEntityTextUrl | MessageEntityUrl | OtherEntity

record entity =
  kind :: entity_kind
  offset :: int
  elength :: int
  url :: "string option"

datatype button = KeyboardButtonUrl string | OtherButton

record message =
  msg_id :: int
  chat_id :: "int option"
  photo :: "photo_obj option"
  video :: "document_obj option"
  document :: "document_obj option"
  file_name_attr :: "string option"
  msg_text :: "string option"
  caption :: "string option"
  entities :: "entity list option"
  reply_markup :: "button list list option"

section \<open>Filtering by media type\<close>

text \<open>
  \<open>TelegramDownloader.filter_messages_by_type\<close>: the loop appends a message when the
  first branch of the \<open>if\<close>/\<open>elif\<close> chain whose selector test holds also finds its
  media; \<open>keeps\<close> is that chain for one message.
\<close>

definition has_mime :: "message \<Rightarrow> string \<Rightarrow> bool" where
  "has_mime m t = (case document m of None \<Rightarrow> False | Some d \<Rightarrow> mime_type d = Some t)"

definition keeps :: "string \<Rightarrow> message \<Rightarrow> bool" where
  "keeps media_type m =
     (if lower media_type = ''images'' \<and> photo m \<noteq> None then True
      else if lower media_type = ''videos'' \<and> video m \<noteq> None then True
      else if lower media_type = ''pdfs'' \<and> has_mime m ''application/pdf'' then True
      else if lower media_type = ''zips'' \<and> has_mime m ''application/zip'' then True
      else if lower media_type = ''documents'' \<and> document m \<noteq> None then True
      else False)"

definition filter_messages_by_type :: "message list \<Rightarrow> string \<Rightarrow> message list" where
  "filter_messages_by_type messages media_type =
     (if lower media_type = ''all'' then messages
      else foldl (\<lambda>filtered m. if keeps media_type m then filtered @ [m] else filtered)
             [] messages)"

text \<open>
  The module-level \<open>filter_messages_by_type\<close> of \<open>downloader.py\<close>: the same chain,
  reading each attribute with \<open>getattr(..., None)\<close>.
\<close>

definition getattr_mime :: "message \<Rightarrow> string option" where
  "getattr_mime m = (case document m of None \<Rightarrow> None | Some d \<Rightarrow> mime_type d)"

definition keeps_fn :: "string \<Rightarrow> message \<Rightarrow> bool" where
  "keeps_fn media_type m =
     (if lower media_type = ''images'' \<and> photo m \<noteq> None then True
      else if lower media_type = ''videos'' \<and> video m \<noteq> None then True
      else if lower media_type = ''pdfs'' \<and> document m \<noteq> None
              \<and> getattr_mime m = Some ''application/pdf'' then True
      else if lower media_type = ''zips'' \<and> document m \<noteq> None
              \<and> getattr_mime m = Some ''application/zip'' then True
      else if lower media_type = ''documents'' \<and> document m \<noteq> None then True
      else False)"

definition filter_messages_by_type_fn :: "message list \<Rightarrow> string \<Rightarrow> message list" where
  "filter_messages_by_type_fn messages media_type =
     (if lower media_type = ''all'' then messages
      else foldl (\<lambda>filtered m. if keeps_fn media_type m then filtered @ [m] else filtered)
             [] messages)"

section \<open>The download ledger\<close>

text \<open>
  The state file is seen through the three things \<open>load_state\<close> does with it:
  \<open>os.path.exists\<close> and \<open>open\<close>, \<open>json.load\<close>, and
  \<open>set(data.get('downloaded_files', []))\<close>. \<open>Missing\<close>: the path does not exist.
  \<open>Unreadable\<close>: it exists and \<open>open\<close> raises. \<open>Malformed\<close>: \<open>json.load\<close> raises.
  \<open>NotADict\<close>: the document is not a JSON object, so \<open>data.get\<close> raises.
  \<open>JsonObject ids ts\<close>: an object with the field \<open>downloaded_files\<close> absent
  (\<open>FieldAbsent\<close>), a value \<open>set()\<close> rejects (\<open>NotIterable\<close>), or the members
  \<open>set()\<close> gives (\<open>Ids\<close>), and the field \<open>last_updated\<close>.
\<close>

datatype exn = OSError | JSONDecodeError | AttributeError | TypeError | ValueError

datatype ids_field = FieldAbsent | NotIterable | Ids "string set"

datatype state_file =
    Missing
  | Unreadable
  | Malformed
  | NotADict
  | JsonObject ids_field "string option"

datatype log_entry = Info string | Warning string | Error string

text \<open>What an attempt to rewrite the state file meets: \<open>open(..., 'w')\<close> raises, or it
  truncates the file and \<open>json.dump\<close> raises, or the document is written.\<close>

datatype write_outcome = WriteOk | OpenFails | DumpFails

text \<open>
  One record for the state the downloader reads and writes: the ledger's set in memory
  (\<open>DownloadState.downloaded_files\<close>), the state file, the paths that exist on disk and
  the log.
\<close>

record world =
  downloaded_files :: "string set"
  state_file :: state_file
  disk :: "string set"
  log :: "log_entry list"

text \<open>The body of the \<open>with open(...)\<close> block of \<open>load_state\<close>, for a path that exists.\<close>

fun read_state_file :: "state_file \<Rightarrow> exn + string set" where
  "read_state_file Missing = Inl OSError"
| "read_state_file Unreadable = Inl OSError"
| "read_state_file Malformed = Inl JSONDecodeError"
| "read_state_file NotADict = Inl AttributeError"
| "read_state_file (JsonObject FieldAbsent ts) = Inr {}"
| "read_state_file (JsonObject NotIterable ts) = Inl TypeError"
| "read_state_file (JsonObject (Ids s) ts) = Inr s"

definition load_state :: "world \<Rightarrow> world" where
  "load_state w =
     (if state_file w = Missing then w
      else case read_state_file (state_file w) of
             Inr ids \<Rightarrow> w\<lparr>downloaded_files := ids,
                          log := log w @ [Info ''Loaded previously downloaded files'']\<rparr>
           | Inl e \<Rightarrow> w\<lparr>log := log w @ [Warning ''Could not load download state'']\<rparr>)"

text \<open>\<open>DownloadState.__init__\<close>: the set starts empty, then \<open>load_state\<close> runs.\<close>

definition init_download_state :: "world \<Rightarrow> world" where
  "init_download_state w = load_state (w\<lparr>downloaded_files := {}\<rparr>)"

definition save_state :: "string \<Rightarrow> write_outcome \<Rightarrow> world \<Rightarrow> world" where
  "save_state now wo w =
     (case wo of
        WriteOk \<Rightarrow> w\<lparr>state_file := JsonObject (Ids (downloaded_files w)) (Some now)\<rparr>
      | OpenFails \<Rightarrow> w\<lparr>log := log w @ [Error ''Could not save download state'']\<rparr>
      | DumpFails \<Rightarrow> w\<lparr>state_file := Malformed,
                          log := log w @ [Error ''Could not save download state'']\<rparr>)"

definition is_downloaded :: "string \<Rightarrow> world \<Rightarrow> bool" where
  "is_downloaded file_id w = (file_id \<in> downloaded_files w)"

definition mark_downloaded :: "string \<Rightarrow> string \<Rightarrow> write_outcome \<Rightarrow> world \<Rightarrow> world" where
  "mark_downloaded file_id now wo w =
     save_state now wo (w\<lparr>downloaded_files := insert file_id (downloaded_files w)\<rparr>)"

text \<open>A session's calls on the ledger, each \<open>mark_downloaded\<close> with the clock reading and
  the write outcome it meets.\<close>

datatype ledger_op = IsDownloaded string | MarkDownloaded string string write_outcome

fun run_op :: "world \<Rightarrow> ledger_op \<Rightarrow> world" where
  "run_op w (IsDownloaded file_id) = w"
| "run_op w (MarkDownloaded file_id now wo) = mark_downloaded file_id now wo w"

definition run_ops :: "ledger_op list \<Rightarrow> world \<Rightarrow> world" where
  "run_ops ops w = foldl run_op w ops"

section \<open>Identifiers, names and sizes of media\<close>

definition get_file_id :: "message \<Rightarrow> string" where
  "get_file_id m =
     (case video m of
        Some v \<Rightarrow> ''video_'' @ str_int (msg_id m) @ ''_'' @ str_int (doc_id v)
      | None \<Rightarrow>
          (case document m of
             Some d \<Rightarrow> ''doc_'' @ str_int (msg_id m) @ ''_'' @ str_int (doc_id d)
           | None \<Rightarrow>
               (case photo m of
                  Some p \<Rightarrow> ''photo_'' @ str_int (msg_id m) @ ''_'' @ str_int (photo_id p)
                | None \<Rightarrow> ''media_'' @ str_int (msg_id m))))"

text \<open>The \<open>for attr in attributes\<close> loop of \<open>get_file_name\<close>: the first
  \<open>DocumentAttributeFilename\<close> ends it.\<close>

fun first_file_name :: "attribute list \<Rightarrow> string option" where
  "first_file_name [] = None"
| "first_file_name (DocumentAttributeFilename n # as) = Some n"
| "first_file_name (OtherAttribute # as) = first_file_name as"

definition get_file_name :: "message \<Rightarrow> string" where
  "get_file_name m =
     (case document m of
        Some d \<Rightarrow>
          (case first_file_name (attributes d) of
             Some n \<Rightarrow> n
           | None \<Rightarrow> ''document_'' @ str_int (msg_id m))
      | None \<Rightarrow>
          (case video m of
             Some v \<Rightarrow> ''video_'' @ str_int (msg_id m) @ ''.mp4''
           | None \<Rightarrow>
               (case photo m of
                  Some p \<Rightarrow> ''photo_'' @ str_int (msg_id m) @ ''.jpg''
                | None \<Rightarrow> ''media_'' @ str_int (msg_id m))))"

definition size_or_zero :: "int option \<Rightarrow> int" where
  "size_or_zero s = (case s of None \<Rightarrow> 0 | Some n \<Rightarrow> n)"

definition get_file_size :: "message \<Rightarrow> int" where
  "get_file_size m =
     (case video m of
        Some v \<Rightarrow> size_or_zero (doc_size v)
      | None \<Rightarrow>
          (case document m of
             Some d \<Rightarrow> size_or_zero (doc_size d)
           | None \<Rightarrow> (case photo m of Some p \<Rightarrow> 1024 * 1024 | None \<Rightarrow> 0)))"

text \<open>
  The name \<open>download_file\<close> writes to: a name that starts with the text of a Telethon
  object's \<open>repr\<close> is replaced by \<open>message.file.name\<close> when that is a non-empty
  string, and by \<open>media_{id}\<close> otherwise. (\<open>get_file_name\<close> always returns a string
  here, so the \<open>isinstance\<close> test of the source never fires.)
\<close>

definition destination_name :: "message \<Rightarrow> string" where
  "destination_name m =
     (let file_name = get_file_name m in
      if startswith file_name ''<telethon.tl.custom'' then
        (case file_name_attr m of
           Some n \<Rightarrow> if n \<noteq> [] then n else ''media_'' @ str_int (msg_id m)
         | None \<Rightarrow> ''media_'' @ str_int (msg_id m))
      else file_name)"

text \<open>\<open>folder_path / file_name\<close>: an absolute right operand replaces the folder, an
  empty one leaves it. \<open>pathlib\<close> also drops \<open>.\<close> and empty components of the name
  (\<open>./x.pdf\<close>, \<open>a//b.pdf\<close>); the model joins the name as it is, so it is exact for names
  without such components.\<close>

definition path_join :: "string \<Rightarrow> string \<Rightarrow> string" where
  "path_join folder name =
     (if name = [] then folder
      else if hd name = CHR ''/'' then name
      else folder @ ''/'' @ name)"

section \<open>Downloading one file\<close>

text \<open>
  What the platform and the file system do for one item: the transfer completes, or it
  raises, leaving a partial file or not; whether \<open>unlink\<close> of that path raises; and, for
  the ledger write after a success, the clock reading and the write outcome.
\<close>

datatype transfer_outcome = Transferred | TransferFailed bool

record item_env =
  transfer :: transfer_outcome
  unlink_raises :: bool
  clock :: string
  ledger_write :: write_outcome

text \<open>
  \<open>download_file\<close> returns \<open>True\<close> for an item already in the ledger and for a
  completed transfer, \<open>False\<close> from its \<open>except\<close> branch, and lets an exception of
  \<open>unlink\<close> escape (\<open>Inl\<close>).
\<close>

definition download_file ::
  "string \<Rightarrow> item_env \<Rightarrow> message \<Rightarrow> world \<Rightarrow> (exn + bool) \<times> world" where
  "download_file folder_path env m w =
     (let file_id = get_file_id m;
          file_path = path_join folder_path (destination_name m)
      in if is_downloaded file_id w then
           (Inr True, w\<lparr>log := log w @ [Info ''Skipping already downloaded file'']\<rparr>)
         else
           (case transfer env of
              Transferred \<Rightarrow>
                (let w1 = w\<lparr>disk := insert file_path (disk w)\<rparr>;
                     w2 = mark_downloaded file_id (clock env) (ledger_write env) w1
                 in (Inr True, w2\<lparr>log := log w2 @ [Info ''Successfully downloaded'']\<rparr>))
            | TransferFailed partial \<Rightarrow>
                (let w1 = w\<lparr>disk := (if partial then insert file_path (disk w) else disk w),
                              log := log w @ [Error ''Failed to download'']\<rparr>
                 in if file_path \<in> disk w1 then
                      (if unlink_raises env then (Inl OSError, w1)
                       else (Inr False, w1\<lparr>disk := disk w1 - {file_path}\<rparr>))
                    else (Inr False, w1))))"

section \<open>Downloading in batches\<close>

record stats =
  success :: nat
  failed :: nat
  skipped :: nat

text \<open>
  \<open>asyncio.gather\<close> over the tasks of one batch, with \<open>return_exceptions=True\<close>: every
  task runs to its end and gives its result or its exception. The tasks are run to
  completion in list order, which is one schedule of the event loop. The real tasks of a
  batch interleave at \<open>download_media\<close>: for two items of one batch with the same id the
  real run transfers both, and the order of the log entries can differ. The counts do not
  depend on the schedule for items with different ids and paths.
\<close>

fun gather :: "string \<Rightarrow> (message \<times> item_env) list \<Rightarrow> world \<Rightarrow> (exn + bool) list \<times> world" where
  "gather folder_path [] w = ([], w)"
| "gather folder_path ((m, env) # batch) w =
     (let (result, w1) = download_file folder_path env m w;
          (results, w2) = gather folder_path batch w1
      in (result # results, w2))"

text \<open>The counting loop of \<open>download_batch\<close>, for one result.\<close>

fun count_result :: "stats \<times> world \<Rightarrow> exn + bool \<Rightarrow> stats \<times> world" where
  "count_result (st, w) (Inl e) =
     (st\<lparr>failed := failed st + 1\<rparr>, w\<lparr>log := log w @ [Error ''Download task failed'']\<rparr>)"
| "count_result (st, w) (Inr b) =
     (if b then (st\<lparr>success := success st + 1\<rparr>, w)
      else (st\<lparr>skipped := skipped st + 1\<rparr>, w))"

text \<open>
  \<open>for i in range(0, len(messages), batch_size)\<close> with a positive step, from index
  \<open>i\<close>; \<open>messages[i:i + batch_size]\<close> is \<open>take batch_size (drop i messages)\<close>.
\<close>

function batch_loop ::
  "string \<Rightarrow> nat \<Rightarrow> (message \<times> item_env) list \<Rightarrow> nat \<Rightarrow> stats \<times> world \<Rightarrow> stats \<times> world" where
  "batch_loop folder_path batch_size messages i (st, w) =
     (if batch_size = 0 \<or> length messages \<le> i then (st, w)
      else
        (let batch = take batch_size (drop i messages);
             (results, w1) = gather folder_path batch w
         in batch_loop folder_path batch_size messages (i + batch_size)
              (foldl count_result (st, w1) results)))"
  by pat_completeness auto
termination
  by (relation "measure (\<lambda>(f, b, ms, i, s). length ms - i)") auto

declare batch_loop.simps [simp del]

text \<open>
  \<open>download_batch\<close>: a failure of \<open>mkdir\<close> propagates; \<open>range\<close> raises
  \<open>ValueError\<close> for a step of zero and is empty for a negative step. \<open>disk\<close> holds the
  files only, not the folder: a destination that is the folder itself (an empty file
  name), whose \<open>unlink\<close> raises in the real run, is given by \<open>unlink_raises\<close>.
\<close>

definition download_batch ::
  "(message \<times> item_env) list \<Rightarrow> string \<Rightarrow> int \<Rightarrow> bool \<Rightarrow> world \<Rightarrow> exn + stats \<times> world" where
  "download_batch messages folder_path batch_size mkdir_ok w =
     (let st = \<lparr>success = 0, failed = 0, skipped = 0\<rparr> in
      if mkdir_ok = False then Inl OSError
      else if batch_size = 0 then Inl ValueError
      else if batch_size < 0 then Inr (st, w)
      else Inr (batch_loop folder_path (nat batch_size) messages 0 (st, w)))"

section \<open>Link patterns\<close>

text \<open>
  The five regular expressions of \<open>TelegramLinkExtractor.link_patterns\<close> are sequences
  of single-character items, each a literal or a character class with a repetition
  range: a plain character is \<open>(Lit c, 1, Some 1)\<close>, \<open>s?\<close> is \<open>(Lit s, 0, Some 1)\<close>,
  \<open>[a-zA-Z0-9_]+\<close> is \<open>(WordCh, 1, None)\<close> and \<open>[a-zA-Z0-9_]{5,32}\<close> is
  \<open>(WordCh, 5, Some 32)\<close>. They are matched with \<open>re.IGNORECASE\<close>, so a literal
  matches in either case. The text is ASCII: a character outside ASCII is in no class.
  (On Unicode text \<open>re.IGNORECASE\<close> also lets \<open>s\<close> and \<open>k\<close> match U+017F and U+212A,
  and the digit class match any decimal digit; 8-bit strings hold none of these.)
\<close>

datatype cclass = Lit char | WordCh | WordDashCh | DigitCh

definition is_word_char :: "char \<Rightarrow> bool" where
  "is_word_char c =
     (c \<in> set ''abcdefghijklmnopqrstuvwxyzABCDEFGHIJKLMNOPQRSTUVWXYZ0123456789_'')"

fun in_class :: "cclass \<Rightarrow> char \<Rightarrow> bool" where
  "in_class (Lit a) c = (lower_char c = lower_char a)"
| "in_class WordCh c = is_word_char c"
| "in_class WordDashCh c = (is_word_char c \<or> c = CHR ''-'')"
| "in_class DigitCh c = (c \<in> set ''0123456789'')"

type_synonym pattern = "(cclass \<times> nat \<times> nat option) list"

definition lits :: "string \<Rightarrow> pattern" where
  "lits s = map (\<lambda>c. (Lit c, 1, Some 1)) s"

definition link_patterns :: "pattern list" where
  "link_patterns =
     [ lits ''http'' @ [(Lit CHR ''s'', 0, Some 1)] @ lits ''://t.me/'' @ [(WordCh, 1, None)],
       lits ''t.me/'' @ [(WordCh, 1, None)],
       lits ''@'' @ [(WordCh, 5, Some 32)],
       lits ''http'' @ [(Lit CHR ''s'', 0, Some 1)] @ lits ''://t.me/joinchat/''
         @ [(WordDashCh, 1, None)],
       lits ''http'' @ [(Lit CHR ''s'', 0, Some 1)] @ lits ''://t.me/c/''
         @ [(DigitCh, 1, None)] @ lits ''/'' @ [(DigitCh, 1, None)] ]"

text \<open>
  A match at the start of a string, as the backtracking matcher of \<open>re\<close> finds it: each
  item is greedy, taking as many characters as its class and its upper bound allow and
  giving them back one at a time, down to its lower bound, until the rest of the pattern
  matches. The result is the length of the match.
\<close>

fun first_some :: "'a option list \<Rightarrow> 'a option" where
  "first_some [] = None"
| "first_some (None # xs) = first_some xs"
| "first_some (Some x # xs) = Some x"

fun match_here :: "pattern \<Rightarrow> string \<Rightarrow> nat option" where
  "match_here [] s = Some 0"
| "match_here ((k, lo, hi) # rest) s =
     (let avail = length (takeWhile (in_class k) s);
          most = (case hi of None \<Rightarrow> avail | Some h \<Rightarrow> min h avail)
      in first_some
           (map (\<lambda>n. map_option (\<lambda>r. n + r) (match_here rest (drop n s)))
              (rev [lo..<Suc most])))"

declare match_here.simps(2) [simp del]

text \<open>
  \<open>re.finditer\<close>: the spans of the leftmost matches that do not overlap, scanning from
  position \<open>pos\<close>; after a match of length \<open>n\<close> the next \<open>n - 1\<close> positions are
  skipped. None of the five patterns matches the empty string.
\<close>

fun finditer_from :: "pattern \<Rightarrow> nat \<Rightarrow> nat \<Rightarrow> string \<Rightarrow> (nat \<times> nat) list" where
  "finditer_from p pos skip [] = []"
| "finditer_from p pos skip (c # cs) =
     (if 0 < skip then finditer_from p (pos + 1) (skip - 1) cs
      else case match_here p (c # cs) of
             None \<Rightarrow> finditer_from p (pos + 1) 0 cs
           | Some n \<Rightarrow> (pos, pos + n) # finditer_from p (pos + 1) (n - 1) cs)"

definition finditer :: "pattern \<Rightarrow> string \<Rightarrow> (nat \<times> nat) list" where
  "finditer p text = finditer_from p 0 0 text"



section \<open>Extracting links\<close>

record link_record =
  link :: string
  message_id :: int
  link_chat_id :: "int option"
  ctx :: string
  position :: "(int \<times> int) option"
  timestamp :: string

text \<open>\<open>match.group(0)\<close> for a span of the text.\<close>

definition group0 :: "string \<Rightarrow> nat \<times> nat \<Rightarrow> string" where
  "group0 text span = take (snd span - fst span) (drop (fst span) text)"

text \<open>The inner loop of \<open>extract_links_from_text\<close>: one record for each match of one
  pattern, in the order \<open>finditer\<close> yields them.\<close>

definition match_records ::
  "string \<Rightarrow> int \<Rightarrow> int option \<Rightarrow> string \<Rightarrow> string \<Rightarrow> pattern \<Rightarrow> link_record list" where
  "match_records text mid chat context now p =
     map (\<lambda>span.
            \<lparr>link = group0 text span, message_id = mid, link_chat_id = chat,
             ctx = context, position = Some (int (fst span), int (snd span)),
             timestamp = now\<rparr>) (finditer p text)"

definition extract_links_from_text ::
  "string \<Rightarrow> int \<Rightarrow> int option \<Rightarrow> string \<Rightarrow> string \<Rightarrow> link_record list" where
  "extract_links_from_text text mid chat context now =
     (if text = [] then []
      else concat (map (match_records text mid chat context now) link_patterns))"

definition extract_links_from_entities :: "message \<Rightarrow> string \<Rightarrow> link_record list" where
  "extract_links_from_entities m now =
     (case entities m of
        None \<Rightarrow> []
      | Some es \<Rightarrow>
          concat (map (\<lambda>e.
            if kind e = MessageEntityTextUrl \<or> kind e = MessageEntityUrl then
              (case url e of
                 None \<Rightarrow> []
               | Some u \<Rightarrow>
                   if u = [] then []
                   else [\<lparr>link = u, message_id = msg_id m, link_chat_id = chat_id m,
                          ctx = ''entity'',
                          position = Some (offset e, offset e + elength e),
                          timestamp = now\<rparr>])
            else []) es))"

definition button_links :: "message \<Rightarrow> string \<Rightarrow> button \<Rightarrow> link_record list" where
  "button_links m now b =
     (case b of
        KeyboardButtonUrl u \<Rightarrow>
          [\<lparr>link = u, message_id = msg_id m, link_chat_id = chat_id m, ctx = ''button'',
            position = None, timestamp = now\<rparr>]
      | OtherButton \<Rightarrow> [])"

definition extract_links_from_reply_markup :: "message \<Rightarrow> string \<Rightarrow> link_record list" where
  "extract_links_from_reply_markup m now =
     (case reply_markup m of
        None \<Rightarrow> []
      | Some rows \<Rightarrow> concat (map (\<lambda>row. concat (map (button_links m now) row)) rows))"

text \<open>\<open>process_message\<close>: the text and the caption are scanned when they are non-empty
  strings, then the entities and the buttons.\<close>

definition text_links :: "string option \<Rightarrow> message \<Rightarrow> string \<Rightarrow> string \<Rightarrow> link_record list" where
  "text_links body m context now =
     (case body of
        None \<Rightarrow> []
      | Some t \<Rightarrow> if t = [] then []
                  else extract_links_from_text t (msg_id m) (chat_id m) context now)"

definition process_message :: "message \<Rightarrow> string \<Rightarrow> link_record list" where
  "process_message m now =
     text_links (msg_text m) m ''text'' now
     @ text_links (caption m) m ''caption'' now
     @ extract_links_from_entities m now
     @ extract_links_from_reply_markup m now"

section \<open>The extraction report\<close>

record report =
  channel_identifier :: string
  message_limit :: int
  total_messages_processed :: nat
  total_links_found :: nat
  links :: "link_record list"
  link_types :: "(string \<times> nat) list"
  unique_links :: nat

text \<open>\<open>link_types[link_type] = link_types.get(link_type, 0) + 1\<close> on a dictionary kept
  in insertion order.\<close>

fun dict_incr :: "(string \<times> nat) list \<Rightarrow> string \<Rightarrow> (string \<times> nat) list" where
  "dict_incr [] k = [(k, 1)]"
| "dict_incr ((k', n) # kvs) k =
     (if k' = k then (k', n + 1) # kvs else (k', n) # dict_incr kvs k)"

text \<open>One turn of the \<open>async for message\<close> loop, on \<open>message_count\<close>, \<open>total_links\<close>,
  \<open>results['links']\<close> and \<open>results['statistics']['link_types']\<close>.\<close>

fun channel_step ::
  "string \<Rightarrow> nat \<times> nat \<times> link_record list \<times> (string \<times> nat) list \<Rightarrow> message
     \<Rightarrow> nat \<times> nat \<times> link_record list \<times> (string \<times> nat) list" where
  "channel_step now (message_count, total_links, ls, types) m =
     (let message_links = process_message m now
      in (message_count + 1, total_links + length message_links, ls @ message_links,
          foldl dict_incr types (map ctx message_links)))"

text \<open>
  \<open>extract_links_from_channel\<close>. \<open>lookup\<close> is what \<open>get_entity\<close> does, \<open>msgs\<close> the
  messages \<open>iter_messages\<close> yields, \<open>save_ok\<close> whether writing the report succeeds.
  Every exception is logged and raised again.
\<close>

datatype lookup = LookupRaises | LookupEmpty | Found

definition extract_links_from_channel ::
  "lookup \<Rightarrow> message list \<Rightarrow> string \<Rightarrow> int \<Rightarrow> bool \<Rightarrow> bool \<Rightarrow> string \<Rightarrow> exn + report" where
  "extract_links_from_channel lookup msgs channel limit save_to_file save_ok now =
     (let ident = (if startswith channel ''@'' then channel else ''@'' @ channel)
      in case lookup of
           LookupRaises \<Rightarrow> Inl ValueError
         | LookupEmpty \<Rightarrow> Inl ValueError
         | Found \<Rightarrow>
             (case foldl (channel_step now) (0, 0, [], []) msgs of
                (message_count, total_links, ls, types) \<Rightarrow>
                  if save_to_file \<and> save_ok = False then Inl OSError
                  else Inr \<lparr>channel_identifier = ident, message_limit = limit,
                            total_messages_processed = message_count,
                            total_links_found = total_links, links = ls,
                            link_types = types,
                            unique_links = card (set (map link ls))\<rparr>))"

section \<open>Example inputs\<close>

text \<open>Concrete messages and states on which the theorems below are instantiated.\<close>

definition bare_message :: "int \<Rightarrow> message" where
  "bare_message i =
     \<lparr>msg_id = i, chat_id = None, photo = None, video = None, document = None,
      file_name_attr = None, msg_text = None, caption = None, entities = None,
      reply_markup = None\<rparr>"

definition photo_message :: "int \<Rightarrow> int \<Rightarrow> message" where
  "photo_message i p = (bare_message i)\<lparr>photo := Some \<lparr>photo_id = p\<rparr>\<rparr>"

definition document_message :: "int \<Rightarrow> attribute list \<Rightarrow> message" where
  "document_message i as =
     (bare_message i)\<lparr>document :=
        Some \<lparr>doc_id = 50, doc_size = None, mime_type = None, attributes = as\<rparr>\<rparr>"

definition fresh_world :: world where
  "fresh_world = \<lparr>downloaded_files = {}, state_file = Missing, disk = {}, log = []\<rparr>"

definition ok_env :: item_env where
  "ok_env = \<lparr>transfer = Transferred, unlink_raises = False, clock = ''t'',
             ledger_write = WriteOk\<rparr>"

definition fail_env :: item_env where
  "fail_env = \<lparr>transfer = TransferFailed True, unlink_raises = False, clock = ''t'',
               ledger_write = WriteOk\<rparr>"

text \<open>
  A video message as Telethon builds it: the document (here without a filename
  attribute; \<open>OtherAttribute\<close> stands for its \<open>DocumentAttributeVideo\<close>) is both
  \<open>message.document\<close> and \<open>message.video\<close>.
\<close>

definition video_message :: "int \<Rightarrow> int \<Rightarrow> message" where
  "video_message i v =
     (bare_message i)
       \<lparr>video := Some \<lparr>doc_id = v, doc_size = None, mime_type = Some ''video/mp4'',
                        attributes = [OtherAttribute]\<rparr>,
        document := Some \<lparr>doc_id = v, doc_size = None, mime_type = Some ''video/mp4'',
                           attributes = [OtherAttribute]\<rparr>\<rparr>"

text \<open>
  A document whose filename attribute is the text of an object's \<open>repr\<close>;
  \<open>message.file.name\<close> is that same attribute.
\<close>

definition placeholder_message :: message where
  "placeholder_message =
     (document_message 7
        [DocumentAttributeFilename ''<telethon.tl.custom.file.File object at 0x7f>''])
       \<lparr>file_name_attr := Some ''<telethon.tl.custom.file.File object at 0x7f>''\<rparr>"

definition text_message :: message where
  "text_message = (bare_message 1)\<lparr>msg_text := Some ''join t.me/foo''\<rparr>"

definition caption_message :: message where
  "caption_message = (bare_message 2)\<lparr>caption := Some ''t.me/foo now''\<rparr>"

text \<open>The number of results \<open>download_batch\<close> has counted.\<close>

definition total :: "stats \<Rightarrow> nat" where
  "total st = success st + failed st + skipped st"

section \<open>Filter: proofs\<close>

lemma foldl_append_filter:
  "foldl (\<lambda>acc m. if P m then acc @ [m] else acc) acc0 ms = acc0 @ filter P ms"
  by (induction ms arbitrary: acc0) simp_all

lemma lower_pdfs: "lower ''pdfs'' = ''pdfs''"
  by (simp add: lower_def lower_char_def)

lemma lower_all: "lower ''all'' = ''all''"
  by (simp add: lower_def lower_char_def)

lemma keeps_fn_keeps: "keeps_fn t m = keeps t m"
  by (auto simp: keeps_fn_def keeps_def has_mime_def getattr_mime_def split: option.splits)

lemma filter_by_type_filter:
  "lower t \<noteq> ''all'' \<Longrightarrow> filter_messages_by_type ms t = filter (keeps t) ms"
  by (simp add: filter_messages_by_type_def foldl_append_filter)

lemma filter_by_type_fn_filter:
  "lower t \<noteq> ''all'' \<Longrightarrow> filter_messages_by_type_fn ms t = filter (keeps t) ms"
proof -
  assume "lower t \<noteq> ''all''"
  moreover have "keeps_fn t = keeps t" by (simp add: fun_eq_iff keeps_fn_keeps)
  ultimately show ?thesis
    by (simp add: filter_messages_by_type_fn_def foldl_append_filter)
qed

text \<open>
  C3. With the selector \<open>pdfs\<close> both filters return exactly the messages that carry a
  document whose MIME type is the string \<open>application/pdf\<close>, in their original order
  (\<open>filter\<close> keeps order and multiplicity); with the selector \<open>all\<close> they return the
  input list unchanged.
\<close>

theorem filter_pdfs_and_all:
  "filter_messages_by_type ms ''pdfs'' =
     filter (\<lambda>m. \<exists>d. document m = Some d \<and> mime_type d = Some ''application/pdf'') ms
   \<and> filter_messages_by_type_fn ms ''pdfs'' =
     filter (\<lambda>m. \<exists>d. document m = Some d \<and> mime_type d = Some ''application/pdf'') ms
   \<and> filter_messages_by_type ms ''all'' = ms
   \<and> filter_messages_by_type_fn ms ''all'' = ms"
proof -
  have k: "keeps ''pdfs'' =
      (\<lambda>m. \<exists>d. document m = Some d \<and> mime_type d = Some ''application/pdf'')"
    by (auto simp: keeps_def lower_pdfs has_mime_def fun_eq_iff split: option.splits)
  have ne: "lower ''pdfs'' \<noteq> ''all''" by (simp add: lower_pdfs)
  have a: "filter_messages_by_type ms ''pdfs'' = filter (keeps ''pdfs'') ms"
    using ne by (rule filter_by_type_filter)
  have b: "filter_messages_by_type_fn ms ''pdfs'' = filter (keeps ''pdfs'') ms"
    using ne by (rule filter_by_type_fn_filter)
  have c: "filter_messages_by_type ms ''all'' = ms"
    by (simp add: filter_messages_by_type_def lower_all)
  have d: "filter_messages_by_type_fn ms ''all'' = ms"
    by (simp add: filter_messages_by_type_fn_def lower_all)
  show ?thesis unfolding a b c d k by simp
qed

theorem filter_pdfs_and_all_witness:
  "filter_messages_by_type
     [photo_message 1 10,
      (document_message 2 [])\<lparr>document :=
         Some \<lparr>doc_id = 50, doc_size = None, mime_type = Some ''application/pdf'',
               attributes = []\<rparr>\<rparr>,
      document_message 3 []] ''pdfs''
   = [(document_message 2 [])\<lparr>document :=
         Some \<lparr>doc_id = 50, doc_size = None, mime_type = Some ''application/pdf'',
               attributes = []\<rparr>\<rparr>]"
  using filter_pdfs_and_all
    [of "[photo_message 1 10,
          (document_message 2 [])\<lparr>document :=
             Some \<lparr>doc_id = 50, doc_size = None, mime_type = Some ''application/pdf'',
                   attributes = []\<rparr>\<rparr>,
          document_message 3 []]"]
  by (simp add: photo_message_def document_message_def bare_message_def)

lemma keeps_unknown:
  "lower t \<notin> {''images'', ''videos'', ''pdfs'', ''zips'', ''documents'', ''all''}
     \<Longrightarrow> keeps t m = False"
  by (simp add: keeps_def)

text \<open>
  C9, as the code has it. The selector is lower-cased before it is compared, so it is
  the lower-cased selector that decides: when it is none of \<open>images\<close>, \<open>videos\<close>,
  \<open>pdfs\<close>, \<open>zips\<close>, \<open>documents\<close>, \<open>all\<close>, both filters return the empty list.
\<close>

theorem filter_unknown_selector:
  "lower t \<notin> {''images'', ''videos'', ''pdfs'', ''zips'', ''documents'', ''all''} \<Longrightarrow>
     filter_messages_by_type ms t = [] \<and> filter_messages_by_type_fn ms t = []"
proof -
  assume h: "lower t \<notin> {''images'', ''videos'', ''pdfs'', ''zips'', ''documents'', ''all''}"
  then have ne: "lower t \<noteq> ''all''" by simp
  have k: "filter (keeps t) ms = []" using h by (simp add: keeps_unknown)
  show ?thesis
    by (simp add: filter_by_type_filter [OF ne] filter_by_type_fn_filter [OF ne] k)
qed

theorem filter_unknown_selector_witness:
  "lower ''music'' \<notin> {''images'', ''videos'', ''pdfs'', ''zips'', ''documents'', ''all''}
   \<and> filter_messages_by_type [photo_message 1 10, document_message 2 []] ''music'' = []
   \<and> filter_messages_by_type_fn [photo_message 1 10, document_message 2 []] ''music'' = []"
proof -
  have h: "lower ''music'' \<notin> {''images'', ''videos'', ''pdfs'', ''zips'', ''documents'', ''all''}"
    by (simp add: lower_def lower_char_def)
  show ?thesis
    using h filter_unknown_selector [OF h, of "[photo_message 1 10, document_message 2 []]"]
    by simp
qed

text \<open>
  C9 as the specification states it does not hold: the string \<open>ALL\<close> is outside the
  closed set, and the filter returns the whole input for it, not the empty list.
\<close>

theorem filter_unknown_selector_counterexample:
  "''ALL'' \<notin> {''images'', ''videos'', ''pdfs'', ''zips'', ''documents'', ''all''}
   \<and> filter_messages_by_type [photo_message 1 10] ''ALL'' = [photo_message 1 10]
   \<and> filter_messages_by_type [photo_message 1 10] ''ALL'' \<noteq> []"
  by (simp add: filter_messages_by_type_def lower_def lower_char_def)

section \<open>Ledger: proofs\<close>

text \<open>
  C4. \<open>load_state\<close> and the constructor are total functions to a state: no exception
  reaches the caller. Constructing the ledger over a missing state file gives the empty
  set and logs nothing; over a file that cannot be opened, is not JSON, is not a JSON
  object or holds a \<open>downloaded_files\<close> that \<open>set()\<close> rejects, it gives the empty set
  and logs one warning.
\<close>

theorem load_never_fails:
  "downloaded_files (init_download_state (w\<lparr>state_file := Missing\<rparr>)) = {}
   \<and> log (init_download_state (w\<lparr>state_file := Missing\<rparr>)) = log w
   \<and> list_all (\<lambda>f.
         downloaded_files (init_download_state (w\<lparr>state_file := f\<rparr>)) = {}
         \<and> log (init_download_state (w\<lparr>state_file := f\<rparr>))
             = log w @ [Warning ''Could not load download state''])
       [Unreadable, Malformed, NotADict, JsonObject NotIterable ts]"
  by (simp add: init_download_state_def load_state_def)

theorem load_never_fails_witness:
  "downloaded_files (init_download_state
      (\<lparr>downloaded_files = {''stale''}, state_file = Missing, disk = {}, log = []\<rparr>
         \<lparr>state_file := Malformed\<rparr>)) = {}
   \<and> log (init_download_state
      (\<lparr>downloaded_files = {''stale''}, state_file = Missing, disk = {}, log = []\<rparr>
         \<lparr>state_file := Malformed\<rparr>)) = [Warning ''Could not load download state'']"
  using load_never_fails
    [of "\<lparr>downloaded_files = {''stale''}, state_file = Missing, disk = {}, log = []\<rparr>"]
  by simp

lemma mark_downloaded_files:
  "downloaded_files (mark_downloaded i now wo w) = insert i (downloaded_files w)"
  by (cases wo) (simp_all add: mark_downloaded_def save_state_def)

lemma run_op_mono: "downloaded_files w \<subseteq> downloaded_files (run_op w a)"
  by (cases a) (auto simp: mark_downloaded_files)

lemma run_ops_mono: "downloaded_files w \<subseteq> downloaded_files (run_ops ops w)"
  unfolding run_ops_def
proof (induction ops arbitrary: w)
  case Nil
  show ?case by simp
next
  case (Cons a ops)
  from run_op_mono [of w a] Cons.IH [of "run_op w a"] show ?case by auto
qed

text \<open>
  C5, as the code has it. Over every sequence of ledger calls the set only grows, and
  \<open>mark_downloaded\<close> leaves it equal to the old set plus the id. The write that follows
  is attempted at once: when it succeeds the state file holds exactly the full set and
  the new timestamp, and nothing is logged; when it fails the error is logged instead of
  raised, and a failure to open the file leaves the file as it was.
\<close>

theorem ledger_monotonic:
  "downloaded_files w \<subseteq> downloaded_files (run_ops ops w)
   \<and> downloaded_files (mark_downloaded i now wo w) = insert i (downloaded_files w)
   \<and> state_file (mark_downloaded i now WriteOk w)
       = JsonObject (Ids (insert i (downloaded_files w))) (Some now)
   \<and> log (mark_downloaded i now WriteOk w) = log w
   \<and> list_all (\<lambda>wo. log (mark_downloaded i now wo w)
                      = log w @ [Error ''Could not save download state''])
       [OpenFails, DumpFails]
   \<and> state_file (mark_downloaded i now OpenFails w) = state_file w"
  by (simp add: run_ops_mono mark_downloaded_files)
     (simp add: mark_downloaded_def save_state_def)

theorem ledger_monotonic_witness:
  "{''a''} \<subseteq> downloaded_files (run_ops
       [IsDownloaded ''a'', MarkDownloaded ''b'' ''t1'' WriteOk,
        MarkDownloaded ''c'' ''t2'' OpenFails]
       (fresh_world\<lparr>downloaded_files := {''a''}\<rparr>))
   \<and> state_file (mark_downloaded ''b'' ''t1'' WriteOk (fresh_world\<lparr>downloaded_files := {''a''}\<rparr>))
       = JsonObject (Ids {''b'', ''a''}) (Some ''t1'')"
  using ledger_monotonic
    [of "fresh_world\<lparr>downloaded_files := {''a''}\<rparr>"
        "[IsDownloaded ''a'', MarkDownloaded ''b'' ''t1'' WriteOk,
          MarkDownloaded ''c'' ''t2'' OpenFails]" "''b''" "''t1''" WriteOk]
  by simp

text \<open>
  C5 as the specification states it does not hold: when the state file cannot be opened
  for writing, \<open>mark_downloaded\<close> returns without having persisted anything.
\<close>

theorem ledger_persist_counterexample:
  "state_file (mark_downloaded ''photo_1_10'' ''2024-01-01T00:00:00'' OpenFails fresh_world)
     \<noteq> JsonObject (Ids (insert ''photo_1_10'' (downloaded_files fresh_world)))
         (Some ''2024-01-01T00:00:00'')"
  by (simp add: mark_downloaded_def save_state_def fresh_world_def)

section \<open>Batches: proofs\<close>

lemma gather_length: "length (fst (gather f b w)) = length b"
proof (induction b arbitrary: w)
  case Nil
  show ?case by simp
next
  case (Cons a b)
  obtain m e where a: "a = (m, e)" by (cases a)
  obtain r w1 where d: "download_file f e m w = (r, w1)" by (cases "download_file f e m w")
  obtain rs w2 where g: "gather f b w1 = (rs, w2)" by (cases "gather f b w1")
  show ?case using Cons.IH [of w1] by (simp add: a d g)
qed

lemma count_result_total: "total (fst (count_result (st, w) r)) = Suc (total st)"
  by (cases r) (auto simp: total_def)

lemma count_results_total:
  "total (fst (foldl count_result sw rs)) = total (fst sw) + length rs"
proof (induction rs arbitrary: sw)
  case Nil show ?case by simp
next
  case (Cons r rs)
  obtain st w where sw: "sw = (st, w)" by (cases sw)
  show ?case using Cons.IH[of "count_result (st, w) r"] count_result_total[of st w r]
    by (simp add: sw)
qed

lemma batch_loop_total:
  "0 < bs \<Longrightarrow> total (fst (batch_loop f bs ms i (st, w))) = total st + (length ms - i)"
proof (induction f bs ms i "(st, w)" arbitrary: st w rule: batch_loop.induct)
  case (1 f bs ms i st w)
  show ?case
  proof (cases "length ms \<le> i")
    case True
    then show ?thesis by (simp add: batch_loop.simps)
  next
    case False
    obtain rs w1 where g: "gather f (take bs (drop i ms)) w = (rs, w1)" by (cases "gather f (take bs (drop i ms)) w")
    obtain st2 w2 where c: "foldl count_result (st, w1) rs = (st2, w2)" by (cases "foldl count_result (st, w1) rs")
    have lr: "length rs = min bs (length ms - i)"
      using gather_length[of f "take bs (drop i ms)" w] g by simp
    have t2: "total st2 = total st + length rs"
      using count_results_total[of "(st, w1)" rs] c by simp
    have ih: "total (fst (batch_loop f bs ms (i + bs) (st2, w2))) = total st2 + (length ms - (i + bs))"
      using "1.hyps"[of "take bs (drop i ms)" "(rs, w1)" rs w1 st2 w2] "1.prems" False g c by simp
    have "batch_loop f bs ms i (st, w) = batch_loop f bs ms (i + bs) (st2, w2)"
      using False "1.prems" g c by (subst batch_loop.simps) simp
    then show ?thesis using ih t2 lr False "1.prems" by (simp add: min_def)
  qed
qed

text \<open>
  C10. For a positive batch size (and a destination directory that can be created)
  \<open>download_batch\<close> returns its statistics, and every input item has been counted in
  exactly one of the three buckets: their sum is the length of the input list.
\<close>

theorem stats_sum_is_length:
  "0 < bs \<Longrightarrow>
     \<exists>st w'. download_batch ms f bs True w = Inr (st, w')
       \<and> success st + failed st + skipped st = length ms"
proof -
  assume h: "0 < bs"
  obtain st w' where
    b: "batch_loop f (nat bs) ms 0 (\<lparr>success = 0, failed = 0, skipped = 0\<rparr>, w) = (st, w')"
    by (cases "batch_loop f (nat bs) ms 0 (\<lparr>success = 0, failed = 0, skipped = 0\<rparr>, w)")
  have "total st = length ms"
    using batch_loop_total [of "nat bs" f ms 0 "\<lparr>success = 0, failed = 0, skipped = 0\<rparr>" w] h b
    by (simp add: total_def)
  then show ?thesis using h b by (simp add: download_batch_def total_def)
qed

theorem stats_sum_is_length_witness:
  "(0::int) < 2
   \<and> (\<exists>st w'. download_batch
         [(photo_message 1 11, ok_env), (photo_message 2 12, fail_env),
          (photo_message 3 13, ok_env)] ''downloads'' 2 True fresh_world = Inr (st, w')
        \<and> success st + failed st + skipped st = 3)"
proof -
  have h: "(0::int) < 2" by simp
  show ?thesis
    using h stats_sum_is_length [OF h,
      of "[(photo_message 1 11, ok_env), (photo_message 2 12, fail_env),
           (photo_message 3 13, ok_env)]" "''downloads''" fresh_world]
    by (simp add: eval_nat_numeral)
qed

lemma download_file_skip:
  "get_file_id m \<in> downloaded_files w \<Longrightarrow>
     download_file f e m w = (Inr True, w\<lparr>log := log w @ [Info ''Skipping already downloaded file'']\<rparr>)"
  by (simp add: download_file_def is_downloaded_def Let_def)

lemma gather_all_skipped:
  "downloaded_files w = D \<Longrightarrow> list_all (\<lambda>(m, e). get_file_id m \<in> D) b \<Longrightarrow>
     \<exists>l. gather f b w = (replicate (length b) (Inr True), w\<lparr>log := l\<rparr>)"
proof (induction b arbitrary: w)
  case Nil
  have "w = w\<lparr>log := log w\<rparr>" by simp
  then show ?case by (metis gather.simps(1) list.size(3) replicate_0)
next
  case (Cons a b)
  obtain m e where a: "a = (m, e)" by (cases a)
  let ?w1 = "w\<lparr>log := log w @ [Info ''Skipping already downloaded file'']\<rparr>"
  have d: "download_file f e m w = (Inr True, ?w1)"
    using Cons.prems a by (simp add: download_file_skip)
  have "downloaded_files ?w1 = D" using Cons.prems by simp
  moreover have "list_all (\<lambda>(m, e). get_file_id m \<in> D) b" using Cons.prems by simp
  ultimately obtain l where g: "gather f b ?w1 = (replicate (length b) (Inr True), ?w1\<lparr>log := l\<rparr>)"
    using Cons.IH [of ?w1] by blast
  have "gather f (a # b) w = (replicate (length (a # b)) (Inr True), w\<lparr>log := l\<rparr>)"
    by (simp add: a d g)
  then show ?case by blast
qed

lemma count_all_true:
  "foldl count_result (st, w) (replicate n (Inr True)) = (st\<lparr>success := success st + n\<rparr>, w)"
  by (induction n arbitrary: st) simp_all

lemma batch_loop_all_skipped:
  "0 < bs \<Longrightarrow> downloaded_files w = D \<Longrightarrow> list_all (\<lambda>(m, e). get_file_id m \<in> D) ms \<Longrightarrow>
     \<exists>l. batch_loop f bs ms i (st, w) = (st\<lparr>success := success st + (length ms - i)\<rparr>, w\<lparr>log := l\<rparr>)"
proof (induction f bs ms i "(st, w)" arbitrary: st w rule: batch_loop.induct)
  case (1 f bs ms i st w)
  show ?case
  proof (cases "length ms \<le> i")
    case True
    have "batch_loop f bs ms i (st, w)
        = (st\<lparr>success := success st + (length ms - i)\<rparr>, w\<lparr>log := log w\<rparr>)"
      using True by (simp add: batch_loop.simps)
    then show ?thesis by (rule exI [of _ "log w"])
  next
    case False
    let ?b = "take bs (drop i ms)"
    have "set ?b \<subseteq> set ms" by (meson set_take_subset set_drop_subset subset_trans)
    then have la: "list_all (\<lambda>(m, e). get_file_id m \<in> D) ?b"
      using "1.prems"(3) unfolding list_all_iff by blast
    obtain l where g: "gather f ?b w = (replicate (length ?b) (Inr True), w\<lparr>log := l\<rparr>)"
      using gather_all_skipped [OF "1.prems"(2) la] by blast
    let ?st2 = "st\<lparr>success := success st + length ?b\<rparr>"
    have c: "foldl count_result (st, w\<lparr>log := l\<rparr>) (replicate (length ?b) (Inr True)) = (?st2, w\<lparr>log := l\<rparr>)"
      by (rule count_all_true)
    have dd: "downloaded_files (w\<lparr>log := l\<rparr>) = D" using "1.prems"(2) by simp
    obtain l2 where ih: "batch_loop f bs ms (i + bs) (?st2, w\<lparr>log := l\<rparr>)
        = (?st2\<lparr>success := success ?st2 + (length ms - (i + bs))\<rparr>, w\<lparr>log := l\<rparr>\<lparr>log := l2\<rparr>)"
      using "1.hyps"[of ?b "(replicate (length ?b) (Inr True), w\<lparr>log := l\<rparr>)" "replicate (length ?b) (Inr True)" "w\<lparr>log := l\<rparr>" ?st2 "w\<lparr>log := l\<rparr>"]
        "1.prems" False g c dd by auto
    have step: "batch_loop f bs ms i (st, w) = batch_loop f bs ms (i + bs) (?st2, w\<lparr>log := l\<rparr>)"
      using False "1.prems"(1) g c by (subst batch_loop.simps) simp
    have len: "length ?b + (length ms - (i + bs)) = length ms - i"
      using False "1.prems"(1) by (simp add: min_def)
    have "batch_loop f bs ms i (st, w) = (st\<lparr>success := success st + (length ms - i)\<rparr>, w\<lparr>log := l2\<rparr>)"
      using step ih len by (simp add: add.assoc)
    then show ?thesis by blast
  qed
qed

text \<open>
  C1, what the code does. When every item's id is already in the ledger, no transfer is
  made and only the log changes (the ledger, the state file and the disk are as they
  were), but each item is counted as a success: \<open>download_file\<close> returns \<open>True\<close> for a
  skipped item, and \<open>download_batch\<close> counts \<open>True\<close> as \<open>success\<close>. The
  specification's \<open>success = 0, skipped = len(list)\<close> is not what is returned.
\<close>

theorem rerun_counts_success:
  "0 < bs \<Longrightarrow> list_all (\<lambda>(m, e). is_downloaded (get_file_id m) w) ms \<Longrightarrow>
     \<exists>l. download_batch ms f bs True w
       = Inr (\<lparr>success = length ms, failed = 0, skipped = 0\<rparr>, w\<lparr>log := l\<rparr>)"
proof -
  assume h: "0 < bs" and a: "list_all (\<lambda>(m, e). is_downloaded (get_file_id m) w) ms"
  from a have a': "list_all (\<lambda>(m, e). get_file_id m \<in> downloaded_files w) ms"
    by (simp add: is_downloaded_def)
  obtain l where
    "batch_loop f (nat bs) ms 0 (\<lparr>success = 0, failed = 0, skipped = 0\<rparr>, w)
      = (\<lparr>success = 0, failed = 0, skipped = 0\<rparr>
           \<lparr>success := success \<lparr>success = 0, failed = 0, skipped = 0\<rparr> + (length ms - 0)\<rparr>,
         w\<lparr>log := l\<rparr>)"
    using batch_loop_all_skipped
      [of "nat bs" w "downloaded_files w" ms f 0 "\<lparr>success = 0, failed = 0, skipped = 0\<rparr>"] h a'
    by auto
  then have "download_batch ms f bs True w
      = Inr (\<lparr>success = length ms, failed = 0, skipped = 0\<rparr>, w\<lparr>log := l\<rparr>)"
    using h by (simp add: download_batch_def)
  then show ?thesis by (rule exI [of _ l])
qed

theorem rerun_counts_success_witness:
  "list_all (\<lambda>(m, e). is_downloaded (get_file_id m)
        (fresh_world\<lparr>downloaded_files := {''photo_1_10'', ''photo_2_20''}\<rparr>))
     [(photo_message 1 10, ok_env), (photo_message 2 20, ok_env)]
   \<and> (\<exists>l. download_batch [(photo_message 1 10, ok_env), (photo_message 2 20, ok_env)]
         ''downloads'' 5 True
         (fresh_world\<lparr>downloaded_files := {''photo_1_10'', ''photo_2_20''}\<rparr>)
       = Inr (\<lparr>success = 2, failed = 0, skipped = 0\<rparr>,
              fresh_world\<lparr>downloaded_files := {''photo_1_10'', ''photo_2_20''}\<rparr>
                \<lparr>log := l\<rparr>))"
proof -
  have a: "list_all (\<lambda>(m, e). is_downloaded (get_file_id m)
        (fresh_world\<lparr>downloaded_files := {''photo_1_10'', ''photo_2_20''}\<rparr>))
     [(photo_message 1 10, ok_env), (photo_message 2 20, ok_env)]"
    by (simp add: is_downloaded_def get_file_id_def photo_message_def bare_message_def
        str_int_def str_nat.simps digit_char_def)
  have b: "(0::int) < 5" by simp
  show ?thesis
    using a rerun_counts_success [OF b a, of "''downloads''"]
    by (simp add: eval_nat_numeral)
qed

text \<open>
  C2, what the code does. Of three photo messages in one batch the transfer of the second
  fails, leaving a partial file. Items 1 and 3 are downloaded and recorded and the partial
  file of item 2 is removed, but the failure is counted under \<open>skipped\<close>: \<open>download_file\<close>
  returns \<open>False\<close> from its \<open>except\<close> branch, and \<open>download_batch\<close> counts only raised
  exceptions as \<open>failed\<close>. The specification's \<open>failed = 1\<close> is not what is
  returned.
\<close>

theorem failure_counted_as_skipped:
  "download_batch
     [(photo_message 1 11, ok_env), (photo_message 2 12, fail_env),
      (photo_message 3 13, ok_env)] ''downloads'' 5 True fresh_world
   = Inr (\<lparr>success = 2, failed = 0, skipped = 1\<rparr>,
      \<lparr>downloaded_files = {''photo_3_13'', ''photo_1_11''},
        state_file = JsonObject (Ids {''photo_3_13'', ''photo_1_11''}) (Some ''t''),
        disk = {''downloads/photo_3.jpg'', ''downloads/photo_1.jpg''},
        log = [Info ''Successfully downloaded'', Error ''Failed to download'',
               Info ''Successfully downloaded'']\<rparr>)"
  by code_simp

section \<open>File names: proofs\<close>

text \<open>
  C8, what the code does. \<open>get_file_name\<close> looks at the document before the video, and
  a video is a document: for a video message without a filename attribute it returns
  \<open>document_{id}\<close>, where the specification has \<open>video_{id}.mp4\<close> and where
  \<open>get_file_id\<close>, which looks at the video first, has \<open>video_{id}_{video id}\<close>. The guard
  of \<open>download_file\<close> detects a placeholder name and replaces it by
  \<open>message.file.name\<close>, which is that same name: the destination is still the
  placeholder, where the specification has a synthesized name.
\<close>

theorem file_name_video_and_placeholder:
  "get_file_name (video_message 5 77) = ''document_5''
   \<and> get_file_name (video_message 5 77) \<noteq> ''video_5.mp4''
   \<and> get_file_id (video_message 5 77) = ''video_5_77''
   \<and> startswith (get_file_name placeholder_message) ''<telethon.tl.custom''
   \<and> destination_name placeholder_message
       = ''<telethon.tl.custom.file.File object at 0x7f>''
   \<and> destination_name placeholder_message
       \<notin> {''video_7.mp4'', ''photo_7.jpg'', ''document_7'', ''media_7''}"
  by code_simp

section \<open>Link report: proofs\<close>

lemma dict_incr_sum: "sum_list (map snd (dict_incr d k)) = Suc (sum_list (map snd d))"
  by (induction d k rule: dict_incr.induct) auto

lemma foldl_dict_incr_sum:
  "sum_list (map snd (foldl dict_incr d ks)) = sum_list (map snd d) + length ks"
  by (induction ks arbitrary: d) (simp_all add: dict_incr_sum)

lemma channel_loop:
  "foldl (channel_step now) (c, t, ls, ty) msgs = (c', t', ls', ty') \<Longrightarrow>
     c' = c + length msgs
     \<and> ls' = ls @ concat (map (\<lambda>m. process_message m now) msgs)
     \<and> t' = t + length (concat (map (\<lambda>m. process_message m now) msgs))
     \<and> sum_list (map snd ty') = sum_list (map snd ty)
         + length (concat (map (\<lambda>m. process_message m now) msgs))"
proof (induction msgs arbitrary: c t ls ty)
  case Nil
  then show ?case by simp
next
  case (Cons m msgs)
  let ?ml = "process_message m now"
  have "foldl (channel_step now)
          (c + 1, t + length ?ml, ls @ ?ml, foldl dict_incr ty (map ctx ?ml)) msgs
        = (c', t', ls', ty')"
    using Cons.prems by (simp add: Let_def)
  from Cons.IH [OF this] show ?case by (simp add: foldl_dict_incr_sum)
qed

text \<open>
  C6. With the channel found and the report written (or not asked for), the extraction
  returns a report. In every report it returns, the links are the records of all messages
  in order, \<open>total_links_found\<close> is their number, the counts of \<open>link_types\<close> sum to that
  number, and \<open>unique_links\<close> is the number of distinct \<open>link\<close> strings, compared as
  strings (equality of \<^typ>\<open>string\<close> is exact, so case-sensitive).
\<close>

theorem report_statistics:
  "(lookup = Found \<and> (save_to_file = False \<or> save_ok) \<longrightarrow>
      (\<exists>r. extract_links_from_channel lookup msgs ch lim save_to_file save_ok now = Inr r))
   \<and> (extract_links_from_channel lookup msgs ch lim save_to_file save_ok now = Inr r \<longrightarrow>
        links r = concat (map (\<lambda>m. process_message m now) msgs)
        \<and> total_links_found r = length (links r)
        \<and> sum_list (map snd (link_types r)) = total_links_found r
        \<and> unique_links r = card (link ` set (links r))
        \<and> total_messages_processed r = length msgs)"
proof -
  obtain c t ls ty where f: "foldl (channel_step now) (0, 0, [], []) msgs = (c, t, ls, ty)"
    by (cases "foldl (channel_step now) (0, 0, [], []) msgs")
  note inv = channel_loop [OF f]
  have a: "lookup = Found \<and> (save_to_file = False \<or> save_ok) \<longrightarrow>
      (\<exists>r. extract_links_from_channel lookup msgs ch lim save_to_file save_ok now = Inr r)"
    by (auto simp: extract_links_from_channel_def f)
  have b: "extract_links_from_channel lookup msgs ch lim save_to_file save_ok now = Inr r \<longrightarrow>
        links r = concat (map (\<lambda>m. process_message m now) msgs)
        \<and> total_links_found r = length (links r)
        \<and> sum_list (map snd (link_types r)) = total_links_found r
        \<and> unique_links r = card (link ` set (links r))
        \<and> total_messages_processed r = length msgs"
    using inv by (cases lookup) (auto simp: extract_links_from_channel_def f split: if_splits)
  from a b show ?thesis by blast
qed

theorem report_statistics_witness:
  "\<exists>r. extract_links_from_channel Found [text_message, caption_message] ''chan'' 1000 True True ''t''
         = Inr r
     \<and> map (\<lambda>l. (link l, ctx l)) (links r) = [(''t.me/foo'', ''text''), (''t.me/foo'', ''caption'')]
     \<and> unique_links r = 1
     \<and> link_types r = [(''text'', 1), (''caption'', 1)]
     \<and> sum_list (map snd (link_types r)) = total_links_found r
     \<and> total_links_found r = 2"
proof -
  have e: "extract_links_from_channel Found [text_message, caption_message] ''chan'' 1000 True True ''t''
     = Inr \<lparr>channel_identifier = ''@chan'', message_limit = 1000, total_messages_processed = 2,
            total_links_found = 2,
            links = [\<lparr>link = ''t.me/foo'', message_id = 1, link_chat_id = None, ctx = ''text'',
                      position = Some (5, 13), timestamp = ''t''\<rparr>,
                     \<lparr>link = ''t.me/foo'', message_id = 2, link_chat_id = None, ctx = ''caption'',
                      position = Some (0, 8), timestamp = ''t''\<rparr>],
            link_types = [(''text'', 1), (''caption'', 1)], unique_links = 1\<rparr>"
    by code_simp
  show ?thesis
    using report_statistics [of Found True True "[text_message, caption_message]" "''chan''" 1000 "''t''"] e
    by simp
qed

section \<open>Link scanner: proofs\<close>























end
